theory Spec2Isabelle
  imports Main "HOL-Library.Multiset"
begin

section \<open>Python values shared by both modules\<close>

text \<open>
  Exceptions that the modelled code can see. Only subclasses of Python's \<open>Exception\<close>
  are listed. \<open>socket.error\<close> is an alias of \<open>OSError\<close>, \<open>socket.gaierror\<close> is a subclass
  of it; \<open>requests.exceptions.ConnectTimeout\<close> inherits from both
  \<open>requests.exceptions.ConnectionError\<close> and \<open>requests.exceptions.Timeout\<close>, while
  \<open>ReadTimeout\<close> inherits from \<open>Timeout\<close> only. Each constructor carries \<open>str(e)\<close>.
\<close>

datatype py_exception =
    OSError string
  | GaiError string
  | ValueError string
  | UnicodeError string
  | ZeroDivisionError string
  | RequestsTimeout string
  | RequestsConnectTimeout string
  | RequestsConnectionError string
  | OtherException string

fun str_of_exception :: "py_exception \<Rightarrow> string" where
  "str_of_exception (OSError m) = m"
| "str_of_exception (GaiError m) = m"
| "str_of_exception (ValueError m) = m"
| "str_of_exception (UnicodeError m) = m"
| "str_of_exception (ZeroDivisionError m) = m"
| "str_of_exception (RequestsTimeout m) = m"
| "str_of_exception (RequestsConnectTimeout m) = m"
| "str_of_exception (RequestsConnectionError m) = m"
| "str_of_exception (OtherException m) = m"

section \<open>target.py (class Target, as target\_group.py and load\_balancer.py use it)\<close>

text \<open>
  \<open>Target(ip, port, base_uri, hostname=hostname)\<close>: the four fields the two modules read.
\<close>

record target =
  ip :: string
  port :: int
  base_uri :: string
  hostname :: "string option"

section \<open>target\_group.py: the group as the balancer reads it\<close>

record target_group =
  name :: string
  weights :: "string \<rightharpoonup> int"
  weights_provided :: bool
  targets :: "target list"

definition get_targets :: "target_group \<Rightarrow> target list" where
  "get_targets tg = targets tg"

section \<open>Python string operations used by the parser\<close>

text \<open>
  A \<open>char\<close> is a code point below 256 (ASCII and Latin-1), which covers every separator
  the parser looks for. \<open>str.isspace\<close> on that range holds for the code points
  9 to 13, 28 to 31, 32, 133 and 160.
\<close>

definition isspace :: "char \<Rightarrow> bool" where
  "isspace c = ((of_char c :: nat) \<in> {9, 10, 11, 12, 13, 28, 29, 30, 31, 32, 133, 160})"

definition py_strip :: "string \<Rightarrow> string" where
  "py_strip s = rev (dropWhile isspace (rev (dropWhile isspace s)))"

text \<open>\<open>s.split(sep)\<close> for a one-character separator: the pieces between separators.\<close>

fun split_from :: "char \<Rightarrow> string \<Rightarrow> string \<Rightarrow> string list" where
  "split_from sep piece [] = [rev piece]"
| "split_from sep piece (c # cs) =
     (if c = sep then rev piece # split_from sep [] cs else split_from sep (c # piece) cs)"

definition py_split :: "char \<Rightarrow> string \<Rightarrow> string list" where
  "py_split sep s = split_from sep [] s"

text \<open>
  \<open>s.split(sep, 1)\<close> and \<open>s.rsplit(sep, 1)\<close>, both called only when \<open>sep in s\<close>:
  the text before and after the first, respectively the last, separator.
\<close>

definition split_first :: "char \<Rightarrow> string \<Rightarrow> string \<times> string" where
  "split_first sep s = (takeWhile (\<lambda>c. c \<noteq> sep) s, drop 1 (dropWhile (\<lambda>c. c \<noteq> sep) s))"

definition rsplit_last :: "char \<Rightarrow> string \<Rightarrow> string \<times> string" where
  "rsplit_last sep s =
     (rev (drop 1 (dropWhile (\<lambda>c. c \<noteq> sep) (rev s))), rev (takeWhile (\<lambda>c. c \<noteq> sep) (rev s)))"

text \<open>
  \<open>int(s)\<close> on a string, base 10: surrounding whitespace is skipped (for \<open>int\<close> that is
  the code points 9 to 13, 32, 133 and 160), then an optional sign, then decimal digits
  in which single underscores may stand between two digits. Anything else raises
  \<open>ValueError\<close>. The interpreter's configurable limit on the number of digits is not
  part of the model.
\<close>

definition int_space :: "char \<Rightarrow> bool" where
  "int_space c = ((of_char c :: nat) \<in> {9, 10, 11, 12, 13, 32, 133, 160})"

definition isdigit :: "char \<Rightarrow> bool" where
  "isdigit c = (48 \<le> (of_char c :: nat) \<and> (of_char c :: nat) \<le> 57)"

definition digit_value :: "char \<Rightarrow> int" where
  "digit_value c = int (of_char c) - 48"

fun digits_value :: "int \<Rightarrow> string \<Rightarrow> int option" where
  "digits_value acc [] = Some acc"
| "digits_value acc [c] = (if isdigit c then Some (acc * 10 + digit_value c) else None)"
| "digits_value acc (c # d # cs) =
     (if isdigit c then digits_value (acc * 10 + digit_value c) (d # cs)
      else if c = CHR ''_'' \<and> isdigit d then digits_value (acc * 10 + digit_value d) cs
      else None)"

definition unsigned_value :: "string \<Rightarrow> int option" where
  "unsigned_value s =
     (case s of [] \<Rightarrow> None
      | c # cs \<Rightarrow> if isdigit c then digits_value (digit_value c) cs else None)"

definition signed_value :: "string \<Rightarrow> int option" where
  "signed_value s =
     (case s of [] \<Rightarrow> None
      | c # cs \<Rightarrow> if c = CHR ''+'' then unsigned_value cs
                  else if c = CHR ''-'' then map_option uminus (unsigned_value cs)
                  else unsigned_value s)"

definition py_int :: "string \<Rightarrow> py_exception + int" where
  "py_int s =
     (case signed_value (rev (dropWhile int_space (rev (dropWhile int_space s)))) of
        None \<Rightarrow> Inl (ValueError ''invalid literal for int() with base 10'')
      | Some n \<Rightarrow> Inr n)"

text \<open>
  \<open>isinstance\<close> tests behind the \<open>except\<close> clauses. \<open>UnicodeError\<close> is a subclass of
  \<open>ValueError\<close>; \<open>socket.gaierror\<close> and the exceptions of \<open>requests\<close> are subclasses of
  \<open>OSError\<close>.
\<close>

fun is_ValueError :: "py_exception \<Rightarrow> bool" where
  "is_ValueError (ValueError m) = True"
| "is_ValueError (UnicodeError m) = True"
| "is_ValueError e = False"

fun is_socket_error :: "py_exception \<Rightarrow> bool" where
  "is_socket_error (OSError m) = True"
| "is_socket_error (GaiError m) = True"
| "is_socket_error (RequestsTimeout m) = True"
| "is_socket_error (RequestsConnectTimeout m) = True"
| "is_socket_error (RequestsConnectionError m) = True"
| "is_socket_error e = False"

fun is_gaierror :: "py_exception \<Rightarrow> bool" where
  "is_gaierror (GaiError m) = True"
| "is_gaierror e = False"

section \<open>target\_group.py: construction\<close>

text \<open>
  The two calls into the \<open>socket\<close> module. \<open>inet_aton r h\<close> is \<open>None\<close> when
  \<open>socket.inet_aton(h)\<close> returns and the exception it raises otherwise;
  \<open>getaddrinfo r h\<close> is the result of \<open>socket.getaddrinfo(h, None, socket.AF_INET)\<close>,
  each returned entry reduced to its address \<open>addr_info[4][0]\<close>, or the exception raised.
\<close>

record resolver =
  inet_aton :: "string \<Rightarrow> py_exception option"
  getaddrinfo :: "string \<Rightarrow> py_exception + string list"

text \<open>The loop over \<open>addr_infos\<close> with its \<open>seen_ips\<close> set.\<close>

fun collect_ips :: "string set \<Rightarrow> string list \<Rightarrow> string list \<Rightarrow> string list" where
  "collect_ips seen_ips ip_addresses [] = ip_addresses"
| "collect_ips seen_ips ip_addresses (a # addr_infos) =
     (if a \<notin> seen_ips then collect_ips (insert a seen_ips) (ip_addresses @ [a]) addr_infos
      else collect_ips seen_ips ip_addresses addr_infos)"

definition resolve_dns :: "resolver \<Rightarrow> string \<Rightarrow> py_exception + string list" where
  "resolve_dns r h =
     (case inet_aton r h of
        None \<Rightarrow> Inr [h]
      | Some e \<Rightarrow>
          if is_socket_error e then
            (case getaddrinfo r h of
               Inr addr_infos \<Rightarrow> Inr (collect_ips {} [] addr_infos)
             | Inl e' \<Rightarrow> if is_gaierror e' then Inr [] else Inl e')
          else Inl e)"

text \<open>Lines 73 to 79: one \<open>Target\<close> per resolved address.\<close>

definition make_targets ::
  "resolver \<Rightarrow> string \<Rightarrow> int \<Rightarrow> string \<Rightarrow> py_exception + target list" where
  "make_targets r h p uri =
     (case resolve_dns r h of
        Inl e \<Rightarrow> Inl e
      | Inr ip_addresses \<Rightarrow>
          Inr (map (\<lambda>a. \<lparr>ip = a, port = p, base_uri = uri, hostname = Some h\<rparr>) ip_addresses))"

definition address_part :: "string \<Rightarrow> string" where
  "address_part spec = (if CHR ''/'' \<in> set spec then fst (split_first CHR ''/'' spec) else spec)"

definition base_uri_of :: "string \<Rightarrow> string" where
  "base_uri_of spec =
     (if CHR ''/'' \<in> set spec
      then (if snd (split_first CHR ''/'' spec) \<noteq> []
            then CHR ''/'' # snd (split_first CHR ''/'' spec) else ''/'')
      else ''/'')"

text \<open>
  The body of the loop over \<open>target_specs\<close>: the Targets one entry appends, \<open>[]\<close> for
  an entry that is skipped by \<open>continue\<close>, or the exception that leaves the loop.
\<close>

definition parse_spec :: "resolver \<Rightarrow> string \<Rightarrow> py_exception + target list" where
  "parse_spec r spec =
     (if spec = [] then Inr []
      else if CHR '':'' \<in> set (address_part spec) then
        (case py_int (snd (rsplit_last CHR '':'' (address_part spec))) of
           Inl e \<Rightarrow> if is_ValueError e then Inr [] else Inl e
         | Inr p \<Rightarrow> make_targets r (fst (rsplit_last CHR '':'' (address_part spec))) p (base_uri_of spec))
      else make_targets r (address_part spec) 80 (base_uri_of spec))"

fun parse_loop :: "resolver \<Rightarrow> target list \<Rightarrow> string list \<Rightarrow> py_exception + target list" where
  "parse_loop r tgts [] = Inr tgts"
| "parse_loop r tgts (spec # specs) =
     (case parse_spec r spec of
        Inl e \<Rightarrow> Inl e
      | Inr new \<Rightarrow> parse_loop r (tgts @ new) specs)"

definition target_specs :: "string \<Rightarrow> string list" where
  "target_specs targets_str = map py_strip (py_split CHR '','' targets_str)"

definition parse_targets :: "resolver \<Rightarrow> string \<Rightarrow> py_exception + target list" where
  "parse_targets r targets_str =
     (if targets_str = [] then Inr [] else parse_loop r [] (target_specs targets_str))"

text \<open>\<open>TargetGroup.__init__\<close>; \<open>ws = None\<close> is the call without a weights argument.\<close>

definition TargetGroup ::
  "resolver \<Rightarrow> string \<Rightarrow> string \<Rightarrow> (string \<rightharpoonup> int) option \<Rightarrow> py_exception + target_group" where
  "TargetGroup r nm targets_str ws =
     (case parse_targets r targets_str of
        Inl e \<Rightarrow> Inl e
      | Inr tgts \<Rightarrow>
          Inr \<lparr>name = nm,
               weights = (case ws of None \<Rightarrow> Map.empty | Some w \<Rightarrow> w),
               weights_provided = (ws \<noteq> None),
               targets = tgts\<rparr>)"

section \<open>target\_group.py: weights\<close>

definition get_weight :: "target_group \<Rightarrow> string \<Rightarrow> int" where
  "get_weight tg h = (case weights tg h of None \<Rightarrow> 1 | Some w \<Rightarrow> w)"

text \<open>\<open>target.hostname or target.ip\<close>: \<open>None\<close> and the empty string both fall back.\<close>

definition group_key :: "target \<Rightarrow> string" where
  "group_key t = (case hostname t of None \<Rightarrow> ip t | Some h \<Rightarrow> if h = [] then ip t else h)"

text \<open>
  \<open>hostname_targets\<close> is a dict, which keeps its keys in insertion order: an
  association list with one pair per key.
\<close>

definition group_step :: "(string \<times> target list) list \<Rightarrow> target \<Rightarrow> (string \<times> target list) list" where
  "group_step d t =
     (let h = group_key t;
          d1 = (if h \<notin> fst ` set d then d @ [(h, [])] else d)
      in map (\<lambda>(k, ts). if k = h then (k, ts @ [t]) else (k, ts)) d1)"

fun group_targets :: "(string \<times> target list) list \<Rightarrow> target list \<Rightarrow> (string \<times> target list) list" where
  "group_targets d [] = d"
| "group_targets d (t # ts) = group_targets (group_step d t) ts"

text \<open>\<open>for _ in range(weight): weighted_list.extend(targets)\<close>\<close>

fun extend_times :: "nat \<Rightarrow> target list \<Rightarrow> target list \<Rightarrow> target list" where
  "extend_times 0 weighted_list ts = weighted_list"
| "extend_times (Suc n) weighted_list ts = extend_times n (weighted_list @ ts) ts"

fun build_weighted ::
  "target_group \<Rightarrow> target list \<Rightarrow> (string \<times> target list) list \<Rightarrow> target list" where
  "build_weighted tg weighted_list [] = weighted_list"
| "build_weighted tg weighted_list ((h, ts) # items) =
     build_weighted tg (extend_times (nat (get_weight tg h)) weighted_list ts) items"

definition get_weighted_target_list :: "target_group \<Rightarrow> target list" where
  "get_weighted_target_list tg =
     (if \<not> weights_provided tg then []
      else build_weighted tg [] (group_targets [] (targets tg)))"

section \<open>load\_balancer.py\<close>

text \<open>
  The configuration object: \<open>get_load_balancing_algorithm()\<close> and
  \<open>get_connection_timeout()\<close> are the two queries the balancer makes.
\<close>

record config =
  get_load_balancing_algorithm :: string
  get_connection_timeout :: int

text \<open>The inbound request: method, ordered header pairs, body and raw query string.\<close>

record request =
  http_method :: string
  headers :: "(string \<times> string) list"
  get_data :: string
  query_string :: string

text \<open>
  A pooled session as \<open>_get_session\<close> configures it.
\<close>

record session =
  trust_env :: bool
  pool_connections :: nat
  pool_maxsize :: nat
  max_retries :: nat

record load_balancer =
  config :: config
  round_robin_counters :: "string \<rightharpoonup> int"
  sessions :: "string \<rightharpoonup> session"

text \<open>
  \<open>_round_robin\<close>. The counter is created before it is read; \<open>index % len(targets)\<close>
  raises \<open>ZeroDivisionError\<close> on an empty list, after the counter has been created.
  Python's \<open>%\<close> with a positive divisor is the floor modulus, as \<open>mod\<close> on \<open>int\<close>.
\<close>

definition round_robin ::
  "load_balancer \<Rightarrow> target_group \<Rightarrow> target list \<Rightarrow> (py_exception + target) \<times> load_balancer" where
  "round_robin lb tg tgts =
     (let group_name = name tg;
          lb1 = (if group_name \<in> dom (round_robin_counters lb) then lb
                 else lb\<lparr>round_robin_counters := (round_robin_counters lb)(group_name \<mapsto> 0)\<rparr>);
          index = the (round_robin_counters lb1 group_name)
      in if tgts = [] then (Inl (ZeroDivisionError ''integer modulo by zero''), lb1)
         else (Inr (tgts ! nat (index mod int (length tgts))),
               lb1\<lparr>round_robin_counters :=
                   (round_robin_counters lb1)(group_name \<mapsto> (index + 1) mod int (length tgts))\<rparr>))"

definition first_or_none :: "target list \<Rightarrow> target option" where
  "first_or_none tgts = (case tgts of [] \<Rightarrow> None | t # _ \<Rightarrow> Some t)"

definition select_target ::
  "load_balancer \<Rightarrow> target_group \<Rightarrow> request
     \<Rightarrow> (py_exception + target option) \<times> load_balancer" where
  "select_target lb tg req =
     (let tgts = get_targets tg
      in if tgts = [] then (Inr None, lb)
         else let algorithm = get_load_balancing_algorithm (config lb)
              in if algorithm = ''ROUND_ROBIN'' then
                   (case round_robin lb tg tgts of (r, lb') \<Rightarrow> (map_sum id Some r, lb'))
                 else if algorithm = ''WEIGHTED'' then (Inr (first_or_none tgts), lb)
                 else if algorithm = ''STICKY'' then (Inr (first_or_none tgts), lb)
                 else if algorithm = ''LRT'' then (Inr (first_or_none tgts), lb)
                 else (case round_robin lb tg tgts of (r, lb') \<Rightarrow> (map_sum id Some r, lb')))"

text \<open>Consecutive calls on one balancer, one inbound request per call, no interleaving.\<close>

fun select_calls ::
  "load_balancer \<Rightarrow> target_group \<Rightarrow> request list \<Rightarrow> (py_exception + target option) list" where
  "select_calls lb tg [] = []"
| "select_calls lb tg (req # reqs) =
     (case select_target lb tg req of (r, lb') \<Rightarrow> r # select_calls lb' tg reqs)"

section \<open>load\_balancer.py: forwarding\<close>

text \<open>
  \<open>key.lower()\<close> on code points below 256: the letters A to Z and the Latin-1 capitals
  192 to 222 (without the multiplication sign 215) move up by 32.
\<close>

definition lower_char :: "char \<Rightarrow> char" where
  "lower_char c =
     (let n = (of_char c :: nat)
      in if (65 \<le> n \<and> n \<le> 90) \<or> (192 \<le> n \<and> n \<le> 222 \<and> n \<noteq> 215) then char_of (n + 32) else c)"

definition py_lower :: "string \<Rightarrow> string" where
  "py_lower s = map lower_char s"

definition HOP_BY_HOP_HEADERS :: "string set" where
  "HOP_BY_HOP_HEADERS = {''connection'', ''keep-alive'', ''transfer-encoding''}"

text \<open>
  A dict built from key/value pairs, as its items in insertion order: storing under a
  key that is present replaces the value in place, a new key goes to the end.
\<close>

definition dict_store :: "('k \<times> 'v) list \<Rightarrow> 'k \<times> 'v \<Rightarrow> ('k \<times> 'v) list" where
  "dict_store d kv =
     (if fst kv \<in> fst ` set d then map (\<lambda>(k, v). if k = fst kv then (k, snd kv) else (k, v)) d
      else d @ [kv])"

definition dict_of :: "('k \<times> 'v) list \<Rightarrow> ('k \<times> 'v) list" where
  "dict_of items = foldl dict_store [] items"

text \<open>Lines 139 to 142, the dict comprehension over \<open>request.headers\<close>.\<close>

definition outbound_headers :: "request \<Rightarrow> (string \<times> string) list" where
  "outbound_headers req =
     dict_of (filter (\<lambda>(key, value). py_lower key \<notin> HOP_BY_HOP_HEADERS) (headers req))"

text \<open>The keyword arguments of \<open>session.request\<close>, and the backend's answer.\<close>

record outbound_request =
  out_method :: string
  out_url :: string
  out_headers :: "(string \<times> string) list"
  out_data :: string
  out_timeout :: int
  allow_redirects :: bool

record backend_response =
  content :: string
  status_code :: int
  backend_headers :: "(string \<times> string) list"

text \<open>The Flask response handed back to the caller.\<close>

record response =
  response_body :: string
  status :: int
  response_headers :: "(string \<times> string) list"

text \<open>
  What \<open>forward_request\<close> calls outside this module. \<open>get_url\<close> is \<open>Target.get_url\<close>,
  \<open>decode_utf8\<close> is \<open>bytes.decode('utf-8')\<close>, \<open>session_request\<close> is \<open>Session.request\<close>;
  each gives its result or the exception it raises.

  Modelled from the spec: \<open>handle_error\<close> is the error responder of error\_handler.py,
  which is not part of the sources; "given an integer status code and message, produces
  a response object". It is kept as a function of the environment.
\<close>

record environment =
  get_url :: "target \<Rightarrow> string \<Rightarrow> py_exception + string"
  decode_utf8 :: "string \<Rightarrow> py_exception + string"
  session_request :: "session \<Rightarrow> outbound_request \<Rightarrow> py_exception + backend_response"
  handle_error :: "int \<Rightarrow> string \<Rightarrow> response"

text \<open>\<open>str\<close> of an integer, for the key \<open>f"{target.ip}:{target.port}"\<close>.\<close>

fun str_nat :: "nat \<Rightarrow> string" where
  "str_nat n = (if n < 10 then [char_of (48 + n)] else str_nat (n div 10) @ [char_of (48 + n mod 10)])"

definition str_int :: "int \<Rightarrow> string" where
  "str_int i = (if i < 0 then CHR ''-'' # str_nat (nat (- i)) else str_nat (nat i))"

definition new_session :: session where
  "new_session = \<lparr>trust_env = False, pool_connections = 10, pool_maxsize = 20, max_retries = 0\<rparr>"

definition get_session :: "load_balancer \<Rightarrow> target \<Rightarrow> session \<times> load_balancer" where
  "get_session lb tgt =
     (let host_port = ip tgt @ '':'' @ str_int (port tgt)
      in case sessions lb host_port of
           None \<Rightarrow> (new_session, lb\<lparr>sessions := (sessions lb)(host_port \<mapsto> new_session)\<rparr>)
         | Some s \<Rightarrow> (s, lb))"

definition build_outbound :: "load_balancer \<Rightarrow> request \<Rightarrow> string \<Rightarrow> outbound_request" where
  "build_outbound lb req url =
     \<lparr>out_method = http_method req, out_url = url, out_headers = outbound_headers req,
      out_data = get_data req, out_timeout = get_connection_timeout (config lb),
      allow_redirects = False\<rparr>"

text \<open>The body of the \<open>try\<close> block, lines 134 to 172.\<close>

definition forward_try ::
  "environment \<Rightarrow> load_balancer \<Rightarrow> target \<Rightarrow> request \<Rightarrow> string
     \<Rightarrow> (py_exception + response) \<times> load_balancer" where
  "forward_try env lb tgt req path =
     (case get_url env tgt path of
        Inl e \<Rightarrow> (Inl e, lb)
      | Inr url \<Rightarrow>
          (case decode_utf8 env (query_string req) of
             Inl e \<Rightarrow> (Inl e, lb)
           | Inr qs \<Rightarrow>
               (let url1 = (if qs \<noteq> [] then url @ ''?'' @ qs else url);
                    (s, lb1) = get_session lb tgt
                in case session_request env s (build_outbound lb req url1) of
                     Inl e \<Rightarrow> (Inl e, lb1)
                   | Inr r \<Rightarrow>
                       (Inr \<lparr>response_body = content r, status = status_code r,
                             response_headers = dict_of (backend_headers r)\<rparr>, lb1))))"

text \<open>
  The \<open>except\<close> clauses in their order: \<open>Timeout\<close>, then \<open>ConnectionError\<close>, then
  \<open>Exception\<close>.
\<close>

fun is_Timeout :: "py_exception \<Rightarrow> bool" where
  "is_Timeout (RequestsTimeout m) = True"
| "is_Timeout (RequestsConnectTimeout m) = True"
| "is_Timeout e = False"

fun is_ConnectionError :: "py_exception \<Rightarrow> bool" where
  "is_ConnectionError (RequestsConnectionError m) = True"
| "is_ConnectionError (RequestsConnectTimeout m) = True"
| "is_ConnectionError e = False"

definition forward_request ::
  "environment \<Rightarrow> load_balancer \<Rightarrow> target \<Rightarrow> request \<Rightarrow> string
     \<Rightarrow> (py_exception + response) \<times> load_balancer" where
  "forward_request env lb tgt req path =
     (case forward_try env lb tgt req path of
        (Inr resp, lb1) \<Rightarrow> (Inr resp, lb1)
      | (Inl e, lb1) \<Rightarrow>
          if is_Timeout e then (Inr (handle_error env 504 ''Request timeout''), lb1)
          else if is_ConnectionError e then (Inr (handle_error env 502 ''Connection error''), lb1)
          else (Inr (handle_error env 502 (''Error forwarding request: '' @ str_of_exception e)), lb1))"

section \<open>Notions used to state the properties\<close>

text \<open>The distinct elements of a list in the order of their first occurrence.\<close>

fun first_seen :: "'a list \<Rightarrow> 'a list" where
  "first_seen [] = []"
| "first_seen (x # xs) = x # first_seen (filter (\<lambda>y. y \<noteq> x) xs)"

text \<open>The Targets of a group that belong to one hostname, in list order.\<close>

definition host_targets :: "target_group \<Rightarrow> string \<Rightarrow> target list" where
  "host_targets tg h = filter (\<lambda>t. group_key t = h) (targets tg)"

text \<open>The index the next round-robin call of a group reads.\<close>

definition current_index :: "load_balancer \<Rightarrow> target_group \<Rightarrow> int" where
  "current_index lb tg = (case round_robin_counters lb (name tg) of None \<Rightarrow> 0 | Some i \<Rightarrow> i)"

text \<open>The Targets one entry of a specification contributes.\<close>

definition spec_targets :: "resolver \<Rightarrow> string \<Rightarrow> target list" where
  "spec_targets r spec = (case parse_spec r spec of Inl e \<Rightarrow> [] | Inr new \<Rightarrow> new)"


section \<open>Concrete inputs\<close>

definition t1 :: target where
  "t1 = \<lparr>ip = ''10.0.0.1'', port = 8080, base_uri = ''/svc'', hostname = Some ''a.com''\<rparr>"

definition t2 :: target where
  "t2 = \<lparr>ip = ''10.0.0.2'', port = 8080, base_uri = ''/svc'', hostname = Some ''a.com''\<rparr>"

definition t3 :: target where
  "t3 = \<lparr>ip = ''10.0.0.3'', port = 80, base_uri = ''/'', hostname = Some ''b.com''\<rparr>"

definition pool3 :: target_group where
  "pool3 = \<lparr>name = ''pool'', weights = Map.empty, weights_provided = False,
             targets = [t1, t2, t3]\<rparr>"

definition get_root :: request where
  "get_root = \<lparr>http_method = ''GET'', headers = [(''Host'', ''lb.local'')], get_data = [],
                query_string = []\<rparr>"

definition fresh_balancer :: "string \<Rightarrow> load_balancer" where
  "fresh_balancer alg =
     \<lparr>config = \<lparr>get_load_balancing_algorithm = alg, get_connection_timeout = 5\<rparr>,
      round_robin_counters = Map.empty, sessions = Map.empty\<rparr>"

text \<open>
  A resolver: 10.0.0.9 is an address literal; a.com and b.com have one address each,
  c.com has two (one of them listed twice); a name with an empty label makes
  \<open>getaddrinfo\<close> raise \<open>UnicodeError\<close> while it encodes the name with the idna codec,
  before any lookup; every other name is unknown.
\<close>

definition dns :: resolver where
  "dns = \<lparr>inet_aton = (\<lambda>h. if h = ''10.0.0.9'' then None
                             else Some (OSError ''illegal IP address string passed to inet_aton'')),
          getaddrinfo = (\<lambda>h. if h = ''a.com'' then Inr [''10.0.0.1'']
                              else if h = ''b.com'' then Inr [''10.0.0.3'']
                              else if h = ''c.com'' then Inr [''10.0.0.5'', ''10.0.0.6'', ''10.0.0.5'']
                              else if h = ''.a'' then Inl (UnicodeError ''label empty or too long'')
                              else Inl (GaiError ''Name or service not known''))\<rparr>"

text \<open>The group built from \<open>a.com:8080/svc, c.com:9000, b.com/\<close> with weight 3 for c.com.\<close>

definition weighted_pool :: target_group where
  "weighted_pool =
     \<lparr>name = ''pool'', weights = [''c.com'' \<mapsto> 3], weights_provided = True,
      targets = [\<lparr>ip = ''10.0.0.1'', port = 8080, base_uri = ''/svc'', hostname = Some ''a.com''\<rparr>,
                 \<lparr>ip = ''10.0.0.5'', port = 9000, base_uri = ''/'', hostname = Some ''c.com''\<rparr>,
                 \<lparr>ip = ''10.0.0.6'', port = 9000, base_uri = ''/'', hostname = Some ''c.com''\<rparr>,
                 \<lparr>ip = ''10.0.0.3'', port = 80, base_uri = ''/'', hostname = Some ''b.com''\<rparr>]\<rparr>"

text \<open>A resolver for which every host is an address literal.\<close>

definition literal_dns :: resolver where
  "literal_dns = \<lparr>inet_aton = (\<lambda>h. None), getaddrinfo = (\<lambda>h. Inr [])\<rparr>"

text \<open>
  The group built from \<open>a.com:1,c.com:2,a.com:3\<close> with the empty weights dictionary:
  a.com occurs before and after c.com.
\<close>

definition interleaved_pool :: target_group where
  "interleaved_pool =
     \<lparr>name = ''pool'', weights = Map.empty, weights_provided = True,
      targets = [\<lparr>ip = ''10.0.0.1'', port = 1, base_uri = ''/'', hostname = Some ''a.com''\<rparr>,
                 \<lparr>ip = ''10.0.0.5'', port = 2, base_uri = ''/'', hostname = Some ''c.com''\<rparr>,
                 \<lparr>ip = ''10.0.0.6'', port = 2, base_uri = ''/'', hostname = Some ''c.com''\<rparr>,
                 \<lparr>ip = ''10.0.0.1'', port = 3, base_uri = ''/'', hostname = Some ''a.com''\<rparr>]\<rparr>"

text \<open>
  An inbound request whose header names come in several casings, next to headers whose
  names only contain a hop-by-hop name.
\<close>

definition mixed_case_request :: request where
  "mixed_case_request =
     \<lparr>http_method = ''POST'',
      headers = [(''Host'', ''lb.local''), (''CONNECTION'', ''close''),
                 (''X-Connection'', ''kept''), (''Keep-Alive'', ''timeout=5''),
                 (''Authorization'', ''Bearer abc''), (''transfer-ENCODING'', ''chunked''),
                 (''connection'', ''upgrade'')],
      get_data = ''body'', query_string = ''a=1''\<rparr>"

text \<open>
  Three backends. With the first, \<open>Session.request\<close> raises the given exception; with the
  second, the query string is not valid UTF-8; the third answers 200 with the URL it was
  asked for as body. The error responder puts status and message into the response.
\<close>

definition failing_backend :: "py_exception \<Rightarrow> environment" where
  "failing_backend e =
     \<lparr>get_url = (\<lambda>t p. Inr (''http://'' @ ip t @ '':'' @ str_int (port t) @ p)),
      decode_utf8 = (\<lambda>b. Inr b),
      session_request = (\<lambda>s out. Inl e),
      handle_error = (\<lambda>code msg. \<lparr>response_body = msg, status = code, response_headers = []\<rparr>)\<rparr>"

definition undecodable_backend :: environment where
  "undecodable_backend =
     \<lparr>get_url = (\<lambda>t p. Inr (''http://'' @ ip t @ '':'' @ str_int (port t) @ p)),
      decode_utf8 = (\<lambda>b. Inl (UnicodeError ''invalid start byte'')),
      session_request = (\<lambda>s out. Inl (OtherException ''not reached'')),
      handle_error = (\<lambda>code msg. \<lparr>response_body = msg, status = code, response_headers = []\<rparr>)\<rparr>"

definition echo_backend :: environment where
  "echo_backend =
     \<lparr>get_url = (\<lambda>t p. Inr (''http://'' @ ip t @ '':'' @ str_int (port t) @ p)),
      decode_utf8 = (\<lambda>b. Inr b),
      session_request = (\<lambda>s out. Inr \<lparr>content = out_url out, status_code = 200,
                                         backend_headers = [(''Content-Type'', ''text/plain'')]\<rparr>),
      handle_error = (\<lambda>code msg. \<lparr>response_body = msg, status = code, response_headers = []\<rparr>)\<rparr>"

section \<open>Round robin\<close>

lemma round_robin_result:
  assumes "tgts \<noteq> []"
  shows "fst (round_robin lb tg tgts) = Inr (tgts ! nat (current_index lb tg mod int (length tgts)))"
  using assms by (auto simp: round_robin_def current_index_def Let_def dom_def)

lemma round_robin_next:
  assumes "tgts \<noteq> []"
  shows "current_index (snd (round_robin lb tg tgts)) tg
           = (current_index lb tg + 1) mod int (length tgts)"
  using assms by (auto simp: round_robin_def current_index_def Let_def dom_def)

lemma round_robin_config: "config (snd (round_robin lb tg tgts)) = config lb"
  by (simp add: round_robin_def Let_def)

lemma select_calls_round_robin:
  assumes "targets tg \<noteq> []"
    and "get_load_balancing_algorithm (config lb) = ''ROUND_ROBIN''"
    and "0 \<le> current_index lb tg"
  shows "select_calls lb tg reqs
           = map (\<lambda>j. Inr (Some (targets tg ! ((nat (current_index lb tg) + j) mod length (targets tg)))))
                 [0..<length reqs]"
  using assms(2,3)
proof (induction reqs arbitrary: lb)
  case Nil
  show ?case by simp
next
  case (Cons req reqs)
  let ?n = "length (targets tg)"
  let ?i = "current_index lb tg"
  obtain r lb' where step: "round_robin lb tg (targets tg) = (r, lb')"
    by (cases "round_robin lb tg (targets tg)")
  have npos: "0 < ?n" using assms(1) by simp
  have r: "r = Inr (targets tg ! nat (?i mod int ?n))"
    using round_robin_result [OF assms(1), of lb tg] step by simp
  have nxt: "current_index lb' tg = (?i + 1) mod int ?n"
    using round_robin_next [OF assms(1), of lb tg] step by simp
  have cfg: "config lb' = config lb"
    using round_robin_config [of lb tg "targets tg"] step by simp
  have sel: "select_target lb tg req = (map_sum id Some r, lb')"
    using assms(1) Cons.prems(1) step by (simp add: select_target_def get_targets_def Let_def)
  have nonneg: "0 \<le> current_index lb' tg"
    using nxt npos by simp
  have idx0: "nat (?i mod int ?n) = nat ?i mod ?n"
    using Cons.prems(2) by (simp add: nat_mod_distrib)
  have idx: "nat (current_index lb' tg) = (nat ?i + 1) mod ?n"
    using Cons.prems(2) nxt by (simp add: nat_mod_distrib nat_add_distrib)
  have rest: "select_calls lb' tg reqs
        = map (\<lambda>j. Inr (Some (targets tg ! ((nat (current_index lb' tg) + j) mod ?n))))
              [0..<length reqs]"
    using Cons.IH [of lb'] cfg Cons.prems(1) nonneg by simp
  have shift: "((nat ?i + 1) mod ?n + j) mod ?n = (nat ?i + Suc j) mod ?n" for j
    by (simp add: mod_add_left_eq)
  have "select_calls lb tg (req # reqs)
          = Inr (Some (targets tg ! (nat ?i mod ?n)))
            # map (\<lambda>j. Inr (Some (targets tg ! ((nat ?i + Suc j) mod ?n)))) [0..<length reqs]"
    using sel r rest idx0 idx shift by simp
  also have "\<dots> = map (\<lambda>j. Inr (Some (targets tg ! ((nat ?i + j) mod ?n))))
                      (0 # map Suc [0..<length reqs])"
    by (simp add: comp_def)
  also have "0 # map Suc [0..<length reqs] = [0..<length (req # reqs)]"
    by (simp add: upt_conv_Cons map_Suc_upt del: upt_Suc)
  finally show ?case .
qed

lemma cycle_once: "xs \<noteq> [] \<Longrightarrow> map (\<lambda>j. f (xs ! (j mod length xs))) [0..<length xs + 1]
                     = map f xs @ [f (hd xs)]"
proof -
  assume ne: "xs \<noteq> []"
  have "map (\<lambda>j. f (xs ! (j mod length xs))) [0..<length xs] = map (\<lambda>j. f (xs ! j)) [0..<length xs]"
    by (rule map_cong) auto
  also have "\<dots> = map f (map ((!) xs) [0..<length xs])"
    by (simp add: comp_def)
  also have "\<dots> = map f xs"
    by (simp only: map_nth)
  finally have a: "map (\<lambda>j. f (xs ! (j mod length xs))) [0..<length xs] = map f xs" .
  have b: "xs ! 0 = hd xs" using ne by (simp add: hd_conv_nth)
  show ?thesis using a b by simp
qed

text \<open>
  C1. With the algorithm ROUND\_ROBIN, a non-empty target list of length N and no
  counter yet stored under the group's name, N + 1 consecutive calls of
  \<open>select_target\<close> return the N targets in list order, each once, and then the first
  target again.
\<close>

theorem round_robin_cycles_in_order:
  assumes "get_load_balancing_algorithm (config lb) = ''ROUND_ROBIN''"
    and "targets tg \<noteq> []"
    and "name tg \<notin> dom (round_robin_counters lb)"
    and "length reqs = length (targets tg) + 1"
  shows "select_calls lb tg reqs
           = map (\<lambda>t. Inr (Some t)) (targets tg) @ [Inr (Some (hd (targets tg)))]"
proof -
  have zero: "current_index lb tg = 0"
    using assms(3) by (auto simp: current_index_def dom_def split: option.splits)
  have "select_calls lb tg reqs
          = map (\<lambda>j. Inr (Some (targets tg ! (j mod length (targets tg)))))
                [0..<length (targets tg) + 1]"
    using select_calls_round_robin [OF assms(2) assms(1), of reqs] zero assms(4) by simp
  then show ?thesis
    using cycle_once [OF assms(2), of "\<lambda>t. Inr (Some t)"] by simp
qed


theorem round_robin_cycles_in_order_witness:
  "get_load_balancing_algorithm (config (fresh_balancer ''ROUND_ROBIN'')) = ''ROUND_ROBIN''
   \<and> targets pool3 \<noteq> []
   \<and> name pool3 \<notin> dom (round_robin_counters (fresh_balancer ''ROUND_ROBIN''))
   \<and> length [get_root, get_root, get_root, get_root] = length (targets pool3) + 1
   \<and> select_calls (fresh_balancer ''ROUND_ROBIN'') pool3 [get_root, get_root, get_root, get_root]
       = [Inr (Some t1), Inr (Some t2), Inr (Some t3), Inr (Some t1)]"
proof -
  have a: "get_load_balancing_algorithm (config (fresh_balancer ''ROUND_ROBIN'')) = ''ROUND_ROBIN''"
    by (simp add: fresh_balancer_def)
  have b: "targets pool3 \<noteq> []"
    by (simp add: pool3_def)
  have c: "name pool3 \<notin> dom (round_robin_counters (fresh_balancer ''ROUND_ROBIN''))"
    by (simp add: fresh_balancer_def)
  have d: "length [get_root, get_root, get_root, get_root] = length (targets pool3) + 1"
    by (simp add: pool3_def)
  show ?thesis
    using a b c d round_robin_cycles_in_order [OF a b c d] by (simp add: pool3_def)
qed

section \<open>Dispatch\<close>

lemma round_robin_member:
  assumes "tgts \<noteq> []"
  shows "\<exists>t\<in>set tgts. fst (round_robin lb tg tgts) = Inr t"
proof -
  let ?k = "nat (current_index lb tg mod int (length tgts))"
  have pos: "0 < int (length tgts)" using assms by simp
  have "current_index lb tg mod int (length tgts) < int (length tgts)"
    using pos by (rule pos_mod_bound)
  moreover have "0 \<le> current_index lb tg mod int (length tgts)"
    using pos by (rule pos_mod_sign)
  ultimately have "?k < length tgts" by linarith
  then have "tgts ! ?k \<in> set tgts" by (rule nth_mem)
  then show ?thesis using round_robin_result [OF assms, of lb tg] by blast
qed

lemma first_or_none_member: "tgts \<noteq> [] \<Longrightarrow> \<exists>t\<in>set tgts. first_or_none tgts = Some t"
  by (cases tgts) (simp_all add: first_or_none_def)

lemma select_target_member:
  assumes "get_targets tg \<noteq> []"
  shows "\<exists>t\<in>set (get_targets tg). fst (select_target lb tg req) = Inr (Some t)"
proof -
  obtain t where t: "t \<in> set (get_targets tg)" "fst (round_robin lb tg (get_targets tg)) = Inr t"
    using round_robin_member [OF assms] by blast
  obtain u where u: "u \<in> set (get_targets tg)" "first_or_none (get_targets tg) = Some u"
    using first_or_none_member [OF assms] by blast
  have rr: "fst (case round_robin lb tg (get_targets tg) of (r, lb') \<Rightarrow> (map_sum id Some r, lb'))
              = Inr (Some t)"
    using t(2) by (simp add: case_prod_beta)
  have "fst (select_target lb tg req) = Inr (Some t) \<or> fst (select_target lb tg req) = Inr (Some u)"
    using assms rr u(2) by (simp add: select_target_def Let_def)
  then show ?thesis using t(1) u(1) by blast
qed

text \<open>
  C3. \<open>select_target\<close> returns the none-marker exactly when \<open>get_targets()\<close> is empty;
  on a non-empty list it returns a member of that list, whatever algorithm name is
  configured and whatever the stored counters are.
\<close>

theorem select_target_none_iff_empty:
  "(fst (select_target lb tg req) = Inr None \<longleftrightarrow> get_targets tg = [])
   \<and> (get_targets tg \<noteq> [] \<longrightarrow>
        (\<exists>t\<in>set (get_targets tg). fst (select_target lb tg req) = Inr (Some t)))"
proof -
  have "fst (select_target lb tg req) = Inr None" if "get_targets tg = []"
    using that by (simp add: select_target_def)
  moreover have "fst (select_target lb tg req) \<noteq> Inr None" if "get_targets tg \<noteq> []"
    using select_target_member [OF that, of lb req] by auto
  ultimately show ?thesis
    using select_target_member [of tg lb req] by blast
qed

theorem select_target_none_iff_empty_witness:
  "get_targets pool3 \<noteq> []
   \<and> fst (select_target (fresh_balancer ''LRT'') pool3 get_root) \<noteq> Inr None
   \<and> (\<exists>t\<in>set (get_targets pool3).
         fst (select_target (fresh_balancer ''LRT'') pool3 get_root) = Inr (Some t))
   \<and> fst (select_target (fresh_balancer ''LRT'') (pool3\<lparr>targets := []\<rparr>) get_root) = Inr None"
proof -
  have ne: "get_targets pool3 \<noteq> []"
    by (simp add: get_targets_def pool3_def)
  have em: "get_targets (pool3\<lparr>targets := []\<rparr>) = []"
    by (simp add: get_targets_def)
  show ?thesis
    using ne em
      select_target_none_iff_empty [of "fresh_balancer ''LRT''" pool3 get_root]
      select_target_none_iff_empty [of "fresh_balancer ''LRT''" "pool3\<lparr>targets := []\<rparr>" get_root]
    by simp
qed


section \<open>Parsing a specification string\<close>

lemmas parse_defs = parse_targets_def target_specs_def py_split_def py_strip_def isspace_def
  parse_spec_def address_part_def base_uri_of_def make_targets_def split_first_def rsplit_last_def
  py_int_def signed_value_def unsigned_value_def isdigit_def digit_value_def int_space_def

lemma dns_a: "resolve_dns dns ''a.com'' = Inr [''10.0.0.1'']"
  by (simp add: resolve_dns_def dns_def)

lemma dns_b: "resolve_dns dns ''b.com'' = Inr [''10.0.0.3'']"
  by (simp add: resolve_dns_def dns_def)

lemma dns_c: "resolve_dns dns ''c.com'' = Inr [''10.0.0.5'', ''10.0.0.6'']"
  by (simp add: resolve_dns_def dns_def)

lemma weighted_pool_constructed:
  "TargetGroup dns ''pool'' ''a.com:8080/svc, c.com:9000, b.com/'' (Some [''c.com'' \<mapsto> 3])
     = Inr weighted_pool"
  by (simp add: TargetGroup_def parse_defs dns_a dns_b dns_c weighted_pool_def)

text \<open>
  C6. When a.com and b.com each resolve to one address, the specification
  \<open>a.com:8080/svc,b.com/\<close> gives exactly two Targets: a.com's address with port 8080
  and base URI \<open>/svc\<close>, and b.com's address with the default port 80 and base URI \<open>/\<close>.
\<close>

theorem parse_two_entries:
  assumes "resolve_dns r ''a.com'' = Inr [ia]" and "resolve_dns r ''b.com'' = Inr [ib]"
  shows "TargetGroup r nm ''a.com:8080/svc,b.com/'' ws =
           Inr \<lparr>name = nm, weights = (case ws of None \<Rightarrow> Map.empty | Some w \<Rightarrow> w),
                weights_provided = (ws \<noteq> None),
                targets = [\<lparr>ip = ia, port = 8080, base_uri = ''/svc'', hostname = Some ''a.com''\<rparr>,
                           \<lparr>ip = ib, port = 80, base_uri = ''/'', hostname = Some ''b.com''\<rparr>]\<rparr>"
  using assms by (simp add: TargetGroup_def parse_defs)

theorem parse_two_entries_witness:
  "resolve_dns dns ''a.com'' = Inr [''10.0.0.1''] \<and> resolve_dns dns ''b.com'' = Inr [''10.0.0.3'']
   \<and> TargetGroup dns ''pool'' ''a.com:8080/svc,b.com/'' None =
       Inr \<lparr>name = ''pool'', weights = Map.empty, weights_provided = False,
            targets = [\<lparr>ip = ''10.0.0.1'', port = 8080, base_uri = ''/svc'', hostname = Some ''a.com''\<rparr>,
                       \<lparr>ip = ''10.0.0.3'', port = 80, base_uri = ''/'', hostname = Some ''b.com''\<rparr>]\<rparr>"
  using dns_a dns_b parse_two_entries [OF dns_a dns_b, of "''pool''" None] by simp

text \<open>
  C7. A group constructed without a weights argument has the empty expansion, while
  \<open>get_weight\<close> is 1 for every hostname; the flag \<open>weights_provided\<close> records that no
  weights were given, and the weights mapping is empty.
\<close>

theorem unweighted_group_has_no_expansion:
  assumes "TargetGroup r nm targets_str None = Inr tg"
  shows "get_weighted_target_list tg = [] \<and> \<not> weights_provided tg \<and> weights tg = Map.empty
         \<and> (\<forall>h. get_weight tg h = 1)"
  using assms
  by (auto simp: TargetGroup_def get_weighted_target_list_def get_weight_def split: sum.splits)

theorem unweighted_group_has_no_expansion_witness:
  "TargetGroup dns ''pool'' ''a.com:8080/svc, c.com:9000, b.com/'' None
     = Inr (weighted_pool\<lparr>weights := Map.empty, weights_provided := False\<rparr>)
   \<and> get_weighted_target_list (weighted_pool\<lparr>weights := Map.empty, weights_provided := False\<rparr>) = []
   \<and> get_weight (weighted_pool\<lparr>weights := Map.empty, weights_provided := False\<rparr>) ''c.com'' = 1
   \<and> targets (weighted_pool\<lparr>weights := Map.empty, weights_provided := False\<rparr>) \<noteq> []"
proof -
  let ?tg' = "weighted_pool\<lparr>weights := Map.empty, weights_provided := False\<rparr>"
  have n: "TargetGroup dns ''pool'' ''a.com:8080/svc, c.com:9000, b.com/'' None = Inr ?tg'"
    by (simp add: TargetGroup_def parse_defs dns_a dns_b dns_c weighted_pool_def)
  have ne: "targets ?tg' \<noteq> []" by (simp add: weighted_pool_def)
  show ?thesis
    using n ne unweighted_group_has_no_expansion [OF n] by simp
qed

text \<open>
  C9, as stated, fails: the parser applies no range check, so the ports 70000, 0 and
  -1 are all emitted.
\<close>

theorem port_outside_range_counterexample:
  "TargetGroup dns ''pool'' ''a.com:70000,b.com:0,a.com:-1'' None =
     Inr \<lparr>name = ''pool'', weights = Map.empty, weights_provided = False,
          targets = [\<lparr>ip = ''10.0.0.1'', port = 70000, base_uri = ''/'', hostname = Some ''a.com''\<rparr>,
                     \<lparr>ip = ''10.0.0.3'', port = 0, base_uri = ''/'', hostname = Some ''b.com''\<rparr>,
                     \<lparr>ip = ''10.0.0.1'', port = - 1, base_uri = ''/'', hostname = Some ''a.com''\<rparr>]\<rparr>"
  by (simp add: TargetGroup_def parse_defs dns_a dns_b)

text \<open>
  C5 at the specification \<open>a.com:8080/svc,.a\<close>: the second entry's host name has an
  empty label, \<open>getaddrinfo\<close> raises \<open>UnicodeError\<close>, the handler for
  \<open>socket.gaierror\<close> does not catch it, and construction raises instead of returning
  the group with a.com's Target.
\<close>

theorem construction_raises_on_empty_label:
  "TargetGroup dns ''pool'' ''a.com:8080/svc,.a'' None = Inl (UnicodeError ''label empty or too long'')"
  by (simp add: TargetGroup_def parse_defs dns_a resolve_dns_def dns_def)

lemma parse_loop_result:
  assumes "parse_loop r tgts specs = Inr res"
  shows "res = tgts @ concat (map (spec_targets r) specs)"
  using assms
proof (induction specs arbitrary: tgts)
  case Nil
  then show ?case by simp
next
  case (Cons spec specs)
  obtain new where new: "parse_spec r spec = Inr new"
    and rest: "parse_loop r (tgts @ new) specs = Inr res"
    using Cons.prems by (auto split: sum.splits)
  have res: "res = (tgts @ new) @ concat (map (spec_targets r) specs)"
    using rest by (rule Cons.IH)
  have "spec_targets r spec = new"
    using new by (simp add: spec_targets_def)
  then show ?case using res by simp
qed

lemma parse_loop_total:
  assumes "\<forall>spec\<in>set specs. \<exists>new. parse_spec r spec = Inr new"
  shows "parse_loop r tgts specs = Inr (tgts @ concat (map (spec_targets r) specs))"
  using assms
proof (induction specs arbitrary: tgts)
  case Nil
  show ?case by simp
next
  case (Cons spec specs)
  obtain new where new: "parse_spec r spec = Inr new"
    using Cons.prems by auto
  have st: "spec_targets r spec = new"
    using new by (simp add: spec_targets_def)
  have "parse_loop r (tgts @ new) specs = Inr ((tgts @ new) @ concat (map (spec_targets r) specs))"
    using Cons.prems by (intro Cons.IH) simp
  then show ?case using new st by simp
qed

lemma spec_targets_entry:
  assumes "t \<in> set (spec_targets r spec)"
  shows "if CHR '':'' \<in> set (address_part spec)
         then hostname t = Some (fst (rsplit_last CHR '':'' (address_part spec)))
              \<and> py_int (snd (rsplit_last CHR '':'' (address_part spec))) = Inr (port t)
         else hostname t = Some (address_part spec) \<and> port t = 80"
  using assms
  by (auto simp: spec_targets_def parse_spec_def make_targets_def split: sum.splits if_splits)

lemma constructed_targets:
  assumes "TargetGroup r nm targets_str ws = Inr tg"
  shows "targets tg = concat (map (spec_targets r) (target_specs targets_str))"
proof (cases "targets_str = []")
  case True
  then have "targets tg = []"
    using assms by (auto simp: TargetGroup_def parse_targets_def split: sum.splits)
  moreover have "concat (map (spec_targets r) (target_specs targets_str)) = []"
    using True by (simp add: target_specs_def py_split_def py_strip_def spec_targets_def parse_spec_def)
  ultimately show ?thesis by simp
next
  case False
  then have "parse_loop r [] (target_specs targets_str) = Inr (targets tg)"
    using assms by (auto simp: TargetGroup_def parse_targets_def split: sum.splits)
  then show ?thesis using parse_loop_result by fastforce
qed

text \<open>
  C9, amended. The Targets of a constructed group are, entry after entry of the
  specification, the Targets that entry contributes; and every Target an entry
  contributes carries that entry's host and port: when the entry's address part has no
  colon, the whole address part as hostname and the port 80; otherwise the text before
  the last colon as hostname and, as port, the integer that \<open>int\<close> reads from the text
  after the last colon, whatever its value.
\<close>

theorem port_is_default_or_parsed:
  assumes "TargetGroup r nm targets_str ws = Inr tg"
  shows "targets tg = concat (map (spec_targets r) (target_specs targets_str))
         \<and> (\<forall>spec\<in>set (target_specs targets_str). \<forall>t\<in>set (spec_targets r spec).
              if CHR '':'' \<in> set (address_part spec)
              then hostname t = Some (fst (rsplit_last CHR '':'' (address_part spec)))
                   \<and> py_int (snd (rsplit_last CHR '':'' (address_part spec))) = Inr (port t)
              else hostname t = Some (address_part spec) \<and> port t = 80)"
  using constructed_targets [OF assms] spec_targets_entry by blast

theorem port_is_default_or_parsed_witness:
  "TargetGroup literal_dns ''pool'' ''a.com:70000, x:1:9/p ,b.com'' None =
     Inr \<lparr>name = ''pool'', weights = Map.empty, weights_provided = False,
          targets = [\<lparr>ip = ''a.com'', port = 70000, base_uri = ''/'', hostname = Some ''a.com''\<rparr>,
                     \<lparr>ip = ''x:1'', port = 9, base_uri = ''/p'', hostname = Some ''x:1''\<rparr>,
                     \<lparr>ip = ''b.com'', port = 80, base_uri = ''/'', hostname = Some ''b.com''\<rparr>]\<rparr>
   \<and> target_specs ''a.com:70000, x:1:9/p ,b.com'' = [''a.com:70000'', ''x:1:9/p'', ''b.com'']
   \<and> spec_targets literal_dns ''a.com:70000''
        = [\<lparr>ip = ''a.com'', port = 70000, base_uri = ''/'', hostname = Some ''a.com''\<rparr>]
   \<and> spec_targets literal_dns ''x:1:9/p''
        = [\<lparr>ip = ''x:1'', port = 9, base_uri = ''/p'', hostname = Some ''x:1''\<rparr>]
   \<and> spec_targets literal_dns ''b.com''
        = [\<lparr>ip = ''b.com'', port = 80, base_uri = ''/'', hostname = Some ''b.com''\<rparr>]
   \<and> rsplit_last CHR '':'' (address_part ''x:1:9/p'') = (''x:1'', ''9'')
   \<and> py_int ''70000'' = Inr 70000 \<and> py_int ''9'' = Inr 9"
proof -
  let ?tg = "\<lparr>name = ''pool'', weights = Map.empty, weights_provided = False,
          targets = [\<lparr>ip = ''a.com'', port = 70000, base_uri = ''/'', hostname = Some ''a.com''\<rparr>,
                     \<lparr>ip = ''x:1'', port = 9, base_uri = ''/p'', hostname = Some ''x:1''\<rparr>,
                     \<lparr>ip = ''b.com'', port = 80, base_uri = ''/'', hostname = Some ''b.com''\<rparr>]\<rparr>"
  have ra: "resolve_dns literal_dns h = Inr [h]" for h
    by (simp add: resolve_dns_def literal_dns_def)
  have c: "TargetGroup literal_dns ''pool'' ''a.com:70000, x:1:9/p ,b.com'' None = Inr ?tg"
    by (simp add: TargetGroup_def parse_defs ra)
  have specs: "target_specs ''a.com:70000, x:1:9/p ,b.com'' = [''a.com:70000'', ''x:1:9/p'', ''b.com'']"
    by (simp add: target_specs_def py_split_def py_strip_def isspace_def)
  have s1: "spec_targets literal_dns ''a.com:70000''
        = [\<lparr>ip = ''a.com'', port = 70000, base_uri = ''/'', hostname = Some ''a.com''\<rparr>]"
    by (simp add: spec_targets_def parse_defs ra)
  have s2: "spec_targets literal_dns ''x:1:9/p''
        = [\<lparr>ip = ''x:1'', port = 9, base_uri = ''/p'', hostname = Some ''x:1''\<rparr>]"
    by (simp add: spec_targets_def parse_defs ra)
  have s3: "spec_targets literal_dns ''b.com''
        = [\<lparr>ip = ''b.com'', port = 80, base_uri = ''/'', hostname = Some ''b.com''\<rparr>]"
    by (simp add: spec_targets_def parse_defs ra)
  note all = port_is_default_or_parsed [OF c]
  have m2: "''x:1:9/p'' \<in> set (target_specs ''a.com:70000, x:1:9/p ,b.com'')"
    by (simp add: specs)
  have t2: "\<lparr>ip = ''x:1'', port = 9, base_uri = ''/p'', hostname = Some ''x:1''\<rparr>
              \<in> set (spec_targets literal_dns ''x:1:9/p'')"
    by (simp add: s2)
  have colon: "CHR '':'' \<in> set (address_part ''x:1:9/p'')"
    by (simp add: address_part_def split_first_def)
  have e2: "hostname \<lparr>ip = ''x:1'', port = 9, base_uri = ''/p'', hostname = Some ''x:1''\<rparr>
              = Some (fst (rsplit_last CHR '':'' (address_part ''x:1:9/p'')))
            \<and> py_int (snd (rsplit_last CHR '':'' (address_part ''x:1:9/p'')))
              = Inr (port \<lparr>ip = ''x:1'', port = 9, base_uri = ''/p'', hostname = Some ''x:1''\<rparr>)"
    using all [THEN conjunct2, THEN bspec, OF m2, THEN bspec, OF t2] colon by simp
  have r: "rsplit_last CHR '':'' (address_part ''x:1:9/p'') = (''x:1'', ''9'')"
    by (simp add: address_part_def split_first_def rsplit_last_def)
  have p1: "py_int ''70000'' = Inr 70000"
    by (simp add: py_int_def signed_value_def unsigned_value_def isdigit_def digit_value_def int_space_def)
  have p2: "py_int ''9'' = Inr 9"
    using e2 r by simp
  show ?thesis using c specs s1 s2 s3 r p1 p2 by (intro conjI)
qed

section \<open>Weighted expansion\<close>

lemma extend_times_eq: "extend_times n wl ts = wl @ concat (replicate n ts)"
  by (induction n arbitrary: wl) simp_all

lemma build_weighted_eq:
  "build_weighted tg wl items
     = wl @ concat (map (\<lambda>(h, ts). concat (replicate (nat (get_weight tg h)) ts)) items)"
  by (induction items arbitrary: wl) (auto simp: extend_times_eq)

lemma set_first_seen: "set (first_seen xs) = set xs"
  by (induction xs rule: first_seen.induct) auto

lemma distinct_first_seen: "distinct (first_seen xs)"
  by (induction xs rule: first_seen.induct) (auto simp: set_first_seen)

lemma group_step_in:
  assumes "group_key t \<in> fst ` set d"
  shows "group_step d t = map (\<lambda>(k, ts). (k, if k = group_key t then ts @ [t] else ts)) d"
  using assms by (auto simp: group_step_def Let_def)

lemma group_step_notin:
  assumes "group_key t \<notin> fst ` set d"
  shows "group_step d t = d @ [(group_key t, [t])]"
proof -
  have "map (\<lambda>(k, ts). if k = group_key t then (k, ts @ [t]) else (k, ts)) d = d"
    using assms by (induction d) auto
  then show ?thesis using assms by (simp add: group_step_def Let_def)
qed

lemma group_targets_eq:
  "group_targets d tgts
     = map (\<lambda>(k, ts). (k, ts @ filter (\<lambda>t. group_key t = k) tgts)) d
       @ map (\<lambda>h. (h, filter (\<lambda>t. group_key t = h) tgts))
             (first_seen (filter (\<lambda>h. h \<notin> fst ` set d) (map group_key tgts)))"
proof (induction tgts arbitrary: d)
  case Nil
  show ?case by (simp add: case_prod_beta)
next
  case (Cons t tgts)
  let ?h = "group_key t"
  show ?case
  proof (cases "?h \<in> fst ` set d")
    case True
    let ?d' = "map (\<lambda>(k, ts). (k, if k = ?h then ts @ [t] else ts)) d"
    have keys: "fst ` set ?d' = fst ` set d" by force
    have step: "group_step d t = ?d'" using True by (rule group_step_in)
    have a: "map (\<lambda>(k, ts). (k, ts @ filter (\<lambda>t. group_key t = k) tgts)) ?d'
               = map (\<lambda>(k, ts). (k, ts @ filter (\<lambda>u. group_key u = k) (t # tgts))) d"
      by (auto simp: case_prod_beta)
    have b: "map (\<lambda>h. (h, filter (\<lambda>u. group_key u = h) (t # tgts)))
                 (first_seen (filter (\<lambda>h. h \<notin> fst ` set d) (map group_key tgts)))
             = map (\<lambda>h. (h, filter (\<lambda>u. group_key u = h) tgts))
                 (first_seen (filter (\<lambda>h. h \<notin> fst ` set d) (map group_key tgts)))"
      using True by (intro map_cong refl) (force simp: set_first_seen)
    have c: "filter (\<lambda>h. h \<notin> fst ` set d) (map group_key (t # tgts))
               = filter (\<lambda>h. h \<notin> fst ` set d) (map group_key tgts)"
      using True by simp
    have "group_targets d (t # tgts) = group_targets ?d' tgts" by (simp add: step)
    also have "\<dots> = map (\<lambda>(k, ts). (k, ts @ filter (\<lambda>t. group_key t = k) tgts)) ?d'
       @ map (\<lambda>h. (h, filter (\<lambda>t. group_key t = h) tgts))
             (first_seen (filter (\<lambda>h. h \<notin> fst ` set ?d') (map group_key tgts)))"
      by (rule Cons.IH)
    also have "\<dots> = map (\<lambda>(k, ts). (k, ts @ filter (\<lambda>u. group_key u = k) (t # tgts))) d
       @ map (\<lambda>h. (h, filter (\<lambda>u. group_key u = h) (t # tgts)))
             (first_seen (filter (\<lambda>h. h \<notin> fst ` set d) (map group_key (t # tgts))))"
      by (simp only: keys a b c)
    finally show ?thesis .
  next
    case False
    let ?d' = "d @ [(?h, [t])]"
    have step: "group_step d t = ?d'" using False by (rule group_step_notin)
    have a: "map (\<lambda>(k, ts). (k, ts @ filter (\<lambda>u. group_key u = k) tgts)) d
               = map (\<lambda>(k, ts). (k, ts @ filter (\<lambda>u. group_key u = k) (t # tgts))) d"
      using False by (intro map_cong refl) (auto simp: case_prod_beta)
    have flt: "filter (\<lambda>h. h \<notin> fst ` set ?d') (map group_key tgts)
                 = filter (\<lambda>y. y \<noteq> ?h) (filter (\<lambda>h. h \<notin> fst ` set d) (map group_key tgts))"
      by (auto intro: filter_cong)
    have b: "map (\<lambda>h. (h, filter (\<lambda>u. group_key u = h) (t # tgts)))
                 (first_seen (filter (\<lambda>y. y \<noteq> ?h) (filter (\<lambda>h. h \<notin> fst ` set d) (map group_key tgts))))
             = map (\<lambda>h. (h, filter (\<lambda>u. group_key u = h) tgts))
                 (first_seen (filter (\<lambda>y. y \<noteq> ?h) (filter (\<lambda>h. h \<notin> fst ` set d) (map group_key tgts))))"
      by (intro map_cong refl) (auto simp: set_first_seen)
    have "group_targets d (t # tgts) = group_targets ?d' tgts" by (simp add: step)
    also have "\<dots> = map (\<lambda>(k, ts). (k, ts @ filter (\<lambda>t. group_key t = k) tgts)) ?d'
       @ map (\<lambda>h. (h, filter (\<lambda>t. group_key t = h) tgts))
             (first_seen (filter (\<lambda>h. h \<notin> fst ` set ?d') (map group_key tgts)))"
      by (rule Cons.IH)
    also have "\<dots> = map (\<lambda>(k, ts). (k, ts @ filter (\<lambda>u. group_key u = k) (t # tgts))) d
       @ map (\<lambda>h. (h, filter (\<lambda>u. group_key u = h) (t # tgts)))
             (first_seen (filter (\<lambda>h. h \<notin> fst ` set d) (map group_key (t # tgts))))"
      using False a b by (simp only: flt) simp
    finally show ?thesis .
  qed
qed

lemma group_targets_empty:
  "group_targets [] tgts
     = map (\<lambda>h. (h, filter (\<lambda>t. group_key t = h) tgts)) (first_seen (map group_key tgts))"
  by (simp add: group_targets_eq)

lemma weighted_list_eq:
  assumes "weights_provided tg"
  shows "get_weighted_target_list tg
           = concat (map (\<lambda>h. concat (replicate (nat (get_weight tg h)) (host_targets tg h)))
                         (first_seen (map group_key (targets tg))))"
  using assms
  by (simp add: get_weighted_target_list_def build_weighted_eq group_targets_empty host_targets_def
        comp_def)


lemma group_key_host_targets: "t \<in> set (host_targets tg k) \<Longrightarrow> group_key t = k"
  by (simp add: host_targets_def)

lemma filter_replicated:
  "filter P (concat (replicate n xs)) = concat (replicate n (filter P xs))"
  by (induction n) simp_all

lemma filter_host_targets:
  "filter (\<lambda>t. group_key t = h) (host_targets tg k) = (if k = h then host_targets tg h else [])"
  by (auto simp: host_targets_def intro: filter_False)

lemma filter_block_other:
  assumes "k \<noteq> h"
  shows "filter (\<lambda>t. group_key t = h) (concat (replicate n (host_targets tg k))) = []"
  using assms by (simp add: filter_replicated filter_host_targets)

lemma filter_blocks_notin:
  assumes "h \<notin> set ks"
  shows "filter (\<lambda>t. group_key t = h)
           (concat (map (\<lambda>k. concat (replicate (n k) (host_targets tg k))) ks)) = []"
  using assms by (induction ks) (auto simp: filter_block_other simp del: filter_concat)

lemma blocks_keys:
  assumes "t \<in> set (concat (map (\<lambda>k. concat (replicate (n k) (host_targets tg k))) ks))"
  shows "group_key t \<in> set ks"
  using assms by (auto dest: group_key_host_targets)

lemma weighted_block:
  assumes prov: "weights_provided tg" and ne: "host_targets tg h \<noteq> []"
  shows "\<exists>pre post. get_weighted_target_list tg
             = pre @ concat (replicate (nat (get_weight tg h)) (host_targets tg h)) @ post
           \<and> (\<forall>t\<in>set pre \<union> set post. group_key t \<noteq> h)"
proof -
  let ?blk = "\<lambda>k. concat (replicate (nat (get_weight tg k)) (host_targets tg k))"
  let ?ks = "first_seen (map group_key (targets tg))"
  obtain t where "t \<in> set (targets tg)" "group_key t = h"
    using ne by (auto simp: host_targets_def filter_empty_conv)
  then have "h \<in> set ?ks" by (auto simp: set_first_seen)
  then obtain ks1 ks2 where split: "?ks = ks1 @ h # ks2"
    by (auto dest: split_list)
  have "distinct ?ks" by (rule distinct_first_seen)
  then have out: "h \<notin> set ks1" "h \<notin> set ks2" using split by auto
  have eq: "get_weighted_target_list tg = concat (map ?blk ks1) @ ?blk h @ concat (map ?blk ks2)"
    using weighted_list_eq [OF prov] split by simp
  have "\<forall>t\<in>set (concat (map ?blk ks1)) \<union> set (concat (map ?blk ks2)). group_key t \<noteq> h"
    using out blocks_keys [of _ "\<lambda>k. nat (get_weight tg k)" tg] by blast
  then show ?thesis using eq by blast
qed

text \<open>
  C8. In a group constructed with a weights mapping, the expansion is the concatenation,
  over the hostnames in order of first occurrence, of each hostname's Targets repeated
  weight times. A hostname of weight 3 with exactly two Targets \<open>a\<close>, \<open>b\<close> contributes
  the six entries \<open>a, b, a, b, a, b\<close> as one contiguous block, and no other entry of
  the list belongs to that hostname.
\<close>

theorem weighted_expansion_by_hostname:
  assumes "weights_provided tg"
  shows "get_weighted_target_list tg
           = concat (map (\<lambda>k. concat (replicate (nat (get_weight tg k)) (host_targets tg k)))
                         (first_seen (map group_key (targets tg))))
         \<and> (weights tg h = Some 3 \<and> host_targets tg h = [a, b] \<longrightarrow>
              filter (\<lambda>t. group_key t = h) (get_weighted_target_list tg) = [a, b, a, b, a, b]
              \<and> (\<exists>pre post. get_weighted_target_list tg = pre @ [a, b, a, b, a, b] @ post
                    \<and> (\<forall>t\<in>set pre \<union> set post. group_key t \<noteq> h)))"
proof (intro conjI impI)
  show "get_weighted_target_list tg
           = concat (map (\<lambda>k. concat (replicate (nat (get_weight tg k)) (host_targets tg k)))
                         (first_seen (map group_key (targets tg))))"
    using assms by (rule weighted_list_eq)
next
  assume h: "weights tg h = Some 3 \<and> host_targets tg h = [a, b]"
  then have w: "nat (get_weight tg h) = 3" by (simp add: get_weight_def)
  have blk: "concat (replicate (nat (get_weight tg h)) (host_targets tg h)) = [a, b, a, b, a, b]"
    using h by (simp add: w numeral_3_eq_3)
  have ne: "host_targets tg h \<noteq> []" using h by simp
  obtain pre post where pp: "get_weighted_target_list tg = pre @ [a, b, a, b, a, b] @ post"
      "\<forall>t\<in>set pre \<union> set post. group_key t \<noteq> h"
    using weighted_block [OF assms ne] blk by auto
  have ab: "group_key a = h" "group_key b = h"
    using h group_key_host_targets [of a tg h] group_key_host_targets [of b tg h] by simp_all
  have "filter (\<lambda>t. group_key t = h) pre = []" "filter (\<lambda>t. group_key t = h) post = []"
    using pp(2) by (auto simp: filter_empty_conv)
  then show "filter (\<lambda>t. group_key t = h) (get_weighted_target_list tg) = [a, b, a, b, a, b]"
    using pp(1) ab by simp
  show "\<exists>pre post. get_weighted_target_list tg = pre @ [a, b, a, b, a, b] @ post
          \<and> (\<forall>t\<in>set pre \<union> set post. group_key t \<noteq> h)"
    using pp by blast
qed

lemma weighted_pool_c:
  "host_targets weighted_pool ''c.com''
     = [\<lparr>ip = ''10.0.0.5'', port = 9000, base_uri = ''/'', hostname = Some ''c.com''\<rparr>,
        \<lparr>ip = ''10.0.0.6'', port = 9000, base_uri = ''/'', hostname = Some ''c.com''\<rparr>]"
  by (simp add: host_targets_def weighted_pool_def group_key_def)

theorem weighted_expansion_by_hostname_witness:
  "weights_provided weighted_pool \<and> weights weighted_pool ''c.com'' = Some 3
   \<and> host_targets weighted_pool ''c.com''
       = [\<lparr>ip = ''10.0.0.5'', port = 9000, base_uri = ''/'', hostname = Some ''c.com''\<rparr>,
          \<lparr>ip = ''10.0.0.6'', port = 9000, base_uri = ''/'', hostname = Some ''c.com''\<rparr>]
   \<and> filter (\<lambda>t. group_key t = ''c.com'') (get_weighted_target_list weighted_pool)
       = [\<lparr>ip = ''10.0.0.5'', port = 9000, base_uri = ''/'', hostname = Some ''c.com''\<rparr>,
          \<lparr>ip = ''10.0.0.6'', port = 9000, base_uri = ''/'', hostname = Some ''c.com''\<rparr>,
          \<lparr>ip = ''10.0.0.5'', port = 9000, base_uri = ''/'', hostname = Some ''c.com''\<rparr>,
          \<lparr>ip = ''10.0.0.6'', port = 9000, base_uri = ''/'', hostname = Some ''c.com''\<rparr>,
          \<lparr>ip = ''10.0.0.5'', port = 9000, base_uri = ''/'', hostname = Some ''c.com''\<rparr>,
          \<lparr>ip = ''10.0.0.6'', port = 9000, base_uri = ''/'', hostname = Some ''c.com''\<rparr>]"
proof -
  have p: "weights_provided weighted_pool" by (simp add: weighted_pool_def)
  have w: "weights weighted_pool ''c.com'' = Some 3" by (simp add: weighted_pool_def)
  note block = weighted_expansion_by_hostname [OF p, THEN conjunct2, THEN mp,
      OF conjI [OF w weighted_pool_c], THEN conjunct1]
  show ?thesis
    using p w weighted_pool_c block by (intro conjI)
qed

lemma mset_filter_split:
  assumes "k \<notin> set ks"
  shows "mset (filter (\<lambda>t. f t = k \<or> f t \<in> set ks) ts)
           = mset (filter (\<lambda>t. f t = k) ts) + mset (filter (\<lambda>t. f t \<in> set ks) ts)"
  using assms by (induction ts) auto

lemma mset_groups:
  assumes "distinct ks"
  shows "mset (concat (map (\<lambda>k. filter (\<lambda>t. f t = k) ts) ks)) = mset (filter (\<lambda>t. f t \<in> set ks) ts)"
  using assms
proof (induction ks)
  case Nil
  show ?case by simp
next
  case (Cons k ks)
  then have "k \<notin> set ks" "distinct ks" by simp_all
  then show ?case using Cons.IH mset_filter_split [of k ks f ts] by simp
qed

lemma mset_first_seen_groups:
  "mset (concat (map (\<lambda>k. filter (\<lambda>t. f t = k) ts) (first_seen (map f ts)))) = mset ts"
proof -
  have "filter (\<lambda>t. f t \<in> set (first_seen (map f ts))) ts = ts"
    by (simp add: set_first_seen)
  then show ?thesis using mset_groups [OF distinct_first_seen, of f ts "map f ts"] by simp
qed

text \<open>
  C10. A group constructed with the empty weights dictionary expands to its Targets
  grouped by hostname (by \<open>ip\<close> where the hostname is missing or empty): hostname after
  hostname in order of first occurrence, each hostname's Targets once and in list
  order. The expansion has the same Targets as the group's list with the same
  multiplicities, so it is non-empty whenever the group has Targets; the same
  specification without a weights argument gives the empty expansion.
\<close>

theorem empty_weights_expand_once:
  assumes "TargetGroup r nm targets_str (Some Map.empty) = Inr tg"
  shows "get_weighted_target_list tg
           = concat (map (\<lambda>k. filter (\<lambda>t. (case hostname t of None \<Rightarrow> ip t
                                                | Some h \<Rightarrow> if h = [] then ip t else h) = k)
                                      (targets tg))
                         (first_seen (map (\<lambda>t. case hostname t of None \<Rightarrow> ip t
                                                | Some h \<Rightarrow> if h = [] then ip t else h)
                                          (targets tg))))
         \<and> mset (get_weighted_target_list tg) = mset (targets tg)
         \<and> (targets tg \<noteq> [] \<longrightarrow> get_weighted_target_list tg \<noteq> [])
         \<and> (\<forall>tg'. TargetGroup r nm targets_str None = Inr tg'
                \<longrightarrow> targets tg' = targets tg \<and> get_weighted_target_list tg' = [])"
proof -
  have prov: "weights_provided tg" and w: "weights tg = Map.empty"
    using assms by (auto simp: TargetGroup_def split: sum.splits)
  have one: "nat (get_weight tg k) = 1" for k by (simp add: get_weight_def w)
  have eq: "get_weighted_target_list tg
              = concat (map (host_targets tg) (first_seen (map group_key (targets tg))))"
    using weighted_list_eq [OF prov] by (simp add: one)
  have key: "group_key = (\<lambda>t. case hostname t of None \<Rightarrow> ip t
                                | Some h \<Rightarrow> if h = [] then ip t else h)"
    by (rule ext) (simp add: group_key_def)
  have eq': "get_weighted_target_list tg
           = concat (map (\<lambda>k. filter (\<lambda>t. (case hostname t of None \<Rightarrow> ip t
                                                | Some h \<Rightarrow> if h = [] then ip t else h) = k)
                                      (targets tg))
                         (first_seen (map (\<lambda>t. case hostname t of None \<Rightarrow> ip t
                                                | Some h \<Rightarrow> if h = [] then ip t else h)
                                          (targets tg))))"
    using eq unfolding host_targets_def [abs_def] key .
  have ms: "mset (get_weighted_target_list tg) = mset (targets tg)"
    unfolding eq using mset_first_seen_groups [of group_key "targets tg"]
    by (simp add: host_targets_def [abs_def])
  have ne: "get_weighted_target_list tg \<noteq> []" if "targets tg \<noteq> []"
    using that ms by (metis mset_zero_iff)
  have none: "targets tg' = targets tg \<and> get_weighted_target_list tg' = []"
    if "TargetGroup r nm targets_str None = Inr tg'" for tg'
    using that assms
    by (auto simp: TargetGroup_def get_weighted_target_list_def split: sum.splits)
  show ?thesis using eq' ms ne none by blast
qed

theorem empty_weights_expand_once_witness:
  "TargetGroup dns ''pool'' ''a.com:1,c.com:2,a.com:3'' (Some Map.empty) = Inr interleaved_pool
   \<and> get_weighted_target_list interleaved_pool
       = [\<lparr>ip = ''10.0.0.1'', port = 1, base_uri = ''/'', hostname = Some ''a.com''\<rparr>,
          \<lparr>ip = ''10.0.0.1'', port = 3, base_uri = ''/'', hostname = Some ''a.com''\<rparr>,
          \<lparr>ip = ''10.0.0.5'', port = 2, base_uri = ''/'', hostname = Some ''c.com''\<rparr>,
          \<lparr>ip = ''10.0.0.6'', port = 2, base_uri = ''/'', hostname = Some ''c.com''\<rparr>]
   \<and> targets interleaved_pool \<noteq> []
   \<and> TargetGroup dns ''pool'' ''a.com:1,c.com:2,a.com:3'' None
       = Inr (interleaved_pool\<lparr>weights_provided := False\<rparr>)
   \<and> get_weighted_target_list (interleaved_pool\<lparr>weights_provided := False\<rparr>) = []"
proof -
  have c: "TargetGroup dns ''pool'' ''a.com:1,c.com:2,a.com:3'' (Some Map.empty) = Inr interleaved_pool"
    by (simp add: TargetGroup_def parse_defs dns_a dns_c interleaved_pool_def)
  have n: "TargetGroup dns ''pool'' ''a.com:1,c.com:2,a.com:3'' None
             = Inr (interleaved_pool\<lparr>weights_provided := False\<rparr>)"
    by (simp add: TargetGroup_def parse_defs dns_a dns_c interleaved_pool_def)
  note all = empty_weights_expand_once [OF c]
  have l: "get_weighted_target_list interleaved_pool
       = [\<lparr>ip = ''10.0.0.1'', port = 1, base_uri = ''/'', hostname = Some ''a.com''\<rparr>,
          \<lparr>ip = ''10.0.0.1'', port = 3, base_uri = ''/'', hostname = Some ''a.com''\<rparr>,
          \<lparr>ip = ''10.0.0.5'', port = 2, base_uri = ''/'', hostname = Some ''c.com''\<rparr>,
          \<lparr>ip = ''10.0.0.6'', port = 2, base_uri = ''/'', hostname = Some ''c.com''\<rparr>]"
    unfolding all [THEN conjunct1] by (simp add: interleaved_pool_def)
  have ne: "targets interleaved_pool \<noteq> []" by (simp add: interleaved_pool_def)
  have z: "get_weighted_target_list (interleaved_pool\<lparr>weights_provided := False\<rparr>) = []"
    using all n by blast
  show ?thesis using c l ne n z by (intro conjI)
qed

section \<open>Forwarding\<close>

subsection \<open>The dict of the outbound headers\<close>


















subsection \<open>Failures while forwarding\<close>

lemma forward_request_of_failure:
  assumes "fst (forward_try env lb tgt req path) = Inl e"
  shows "fst (forward_request env lb tgt req path)
           = Inr (case e of
                    RequestsTimeout m \<Rightarrow> handle_error env 504 ''Request timeout''
                  | RequestsConnectTimeout m \<Rightarrow> handle_error env 504 ''Request timeout''
                  | RequestsConnectionError m \<Rightarrow> handle_error env 502 ''Connection error''
                  | _ \<Rightarrow> handle_error env 502 (''Error forwarding request: '' @ str_of_exception e))"
proof -
  obtain lb1 where "forward_try env lb tgt req path = (Inl e, lb1)"
    using assms by (cases "forward_try env lb tgt req path") simp
  then show ?thesis
    by (cases e) (simp_all add: forward_request_def)
qed

lemma forward_request_of_success:
  assumes "fst (forward_try env lb tgt req path) = Inr resp"
  shows "fst (forward_request env lb tgt req path) = Inr resp"
proof -
  obtain lb1 where "forward_try env lb tgt req path = (Inr resp, lb1)"
    using assms by (cases "forward_try env lb tgt req path") simp
  then show ?thesis
    by (simp add: forward_request_def)
qed

lemma forward_request_returns: "\<exists>resp. fst (forward_request env lb tgt req path) = Inr resp"
proof (cases "fst (forward_try env lb tgt req path)")
  case (Inl e)
  then show ?thesis using forward_request_of_failure by blast
next
  case (Inr resp)
  then show ?thesis using forward_request_of_success by blast
qed

lemma forward_try_get_url_fails:
  "get_url env tgt path = Inl e \<Longrightarrow> fst (forward_try env lb tgt req path) = Inl e"
  by (simp add: forward_try_def)

lemma forward_try_decode_fails:
  "get_url env tgt path = Inr url \<Longrightarrow> decode_utf8 env (query_string req) = Inl e
     \<Longrightarrow> fst (forward_try env lb tgt req path) = Inl e"
  by (simp add: forward_try_def)

lemma forward_try_session_request:
  assumes "get_url env tgt path = Inr url" and "decode_utf8 env (query_string req) = Inr qs"
  shows "fst (forward_try env lb tgt req path)
           = (case session_request env (fst (get_session lb tgt))
                     (build_outbound lb req (if qs \<noteq> [] then url @ ''?'' @ qs else url)) of
                Inl e \<Rightarrow> Inl e
              | Inr r \<Rightarrow> Inr \<lparr>response_body = content r, status = status_code r,
                               response_headers = dict_of (backend_headers r)\<rparr>)"
  using assms
  by (cases "get_session lb tgt") (simp add: forward_try_def Let_def split: sum.splits)

text \<open>
  C2. \<open>forward_request\<close> always returns a response. When building the URL, decoding the
  query string or \<open>Session.request\<close> raises an exception, the response is the error
  responder's: 504 with "Request timeout" for \<open>Timeout\<close> (a \<open>ConnectTimeout\<close> is one, and
  is caught by the first clause although it is a \<open>ConnectionError\<close> too), 502 with
  "Connection error" for any other \<open>ConnectionError\<close>, and 502 with "Error forwarding
  request: " followed by the exception's text for every other exception. When the
  backend answers, the response carries its body, status and headers. Exceptions are the
  subclasses of \<open>Exception\<close>; the error responder is taken to return.
\<close>

theorem forward_request_never_raises:
  "(\<exists>resp. fst (forward_request env lb tgt req path) = Inr resp)
   \<and> (\<forall>e url qs.
         (get_url env tgt path = Inl e
          \<or> get_url env tgt path = Inr url \<and> decode_utf8 env (query_string req) = Inl e
          \<or> get_url env tgt path = Inr url \<and> decode_utf8 env (query_string req) = Inr qs
            \<and> session_request env (fst (get_session lb tgt))
                 (build_outbound lb req (if qs \<noteq> [] then url @ ''?'' @ qs else url)) = Inl e)
         \<longrightarrow> fst (forward_request env lb tgt req path)
               = Inr (case e of
                        RequestsTimeout m \<Rightarrow> handle_error env 504 ''Request timeout''
                      | RequestsConnectTimeout m \<Rightarrow> handle_error env 504 ''Request timeout''
                      | RequestsConnectionError m \<Rightarrow> handle_error env 502 ''Connection error''
                      | _ \<Rightarrow> handle_error env 502 (''Error forwarding request: '' @ str_of_exception e)))
   \<and> (\<forall>url qs r.
         get_url env tgt path = Inr url \<and> decode_utf8 env (query_string req) = Inr qs
         \<and> session_request env (fst (get_session lb tgt))
              (build_outbound lb req (if qs \<noteq> [] then url @ ''?'' @ qs else url)) = Inr r
         \<longrightarrow> fst (forward_request env lb tgt req path)
               = Inr \<lparr>response_body = content r, status = status_code r,
                      response_headers = dict_of (backend_headers r)\<rparr>)"
proof (intro conjI allI impI)
  show "\<exists>resp. fst (forward_request env lb tgt req path) = Inr resp"
    by (rule forward_request_returns)
next
  fix e url qs
  assume "get_url env tgt path = Inl e
          \<or> get_url env tgt path = Inr url \<and> decode_utf8 env (query_string req) = Inl e
          \<or> get_url env tgt path = Inr url \<and> decode_utf8 env (query_string req) = Inr qs
            \<and> session_request env (fst (get_session lb tgt))
                 (build_outbound lb req (if qs \<noteq> [] then url @ ''?'' @ qs else url)) = Inl e"
  then have "fst (forward_try env lb tgt req path) = Inl e"
    using forward_try_get_url_fails [of env tgt path e lb req]
      forward_try_decode_fails [of env tgt path url req e lb]
      forward_try_session_request [of env tgt path url req qs lb]
    by auto
  then show "fst (forward_request env lb tgt req path)
               = Inr (case e of
                        RequestsTimeout m \<Rightarrow> handle_error env 504 ''Request timeout''
                      | RequestsConnectTimeout m \<Rightarrow> handle_error env 504 ''Request timeout''
                      | RequestsConnectionError m \<Rightarrow> handle_error env 502 ''Connection error''
                      | _ \<Rightarrow> handle_error env 502 (''Error forwarding request: '' @ str_of_exception e))"
    by (rule forward_request_of_failure)
next
  fix url qs r
  assume "get_url env tgt path = Inr url \<and> decode_utf8 env (query_string req) = Inr qs
         \<and> session_request env (fst (get_session lb tgt))
              (build_outbound lb req (if qs \<noteq> [] then url @ ''?'' @ qs else url)) = Inr r"
  then have "fst (forward_try env lb tgt req path)
               = Inr \<lparr>response_body = content r, status = status_code r,
                      response_headers = dict_of (backend_headers r)\<rparr>"
    using forward_try_session_request [of env tgt path url req qs lb] by simp
  then show "fst (forward_request env lb tgt req path)
               = Inr \<lparr>response_body = content r, status = status_code r,
                      response_headers = dict_of (backend_headers r)\<rparr>"
    by (rule forward_request_of_success)
qed

theorem forward_request_never_raises_witness:
  "fst (forward_request (failing_backend (RequestsTimeout ''read timed out''))
          (fresh_balancer ''ROUND_ROBIN'') t1 mixed_case_request ''/x'')
     = Inr \<lparr>response_body = ''Request timeout'', status = 504, response_headers = []\<rparr>
   \<and> fst (forward_request (failing_backend (RequestsConnectTimeout ''connect timed out''))
          (fresh_balancer ''ROUND_ROBIN'') t1 mixed_case_request ''/x'')
     = Inr \<lparr>response_body = ''Request timeout'', status = 504, response_headers = []\<rparr>
   \<and> fst (forward_request (failing_backend (RequestsConnectionError ''connection refused''))
          (fresh_balancer ''ROUND_ROBIN'') t1 mixed_case_request ''/x'')
     = Inr \<lparr>response_body = ''Connection error'', status = 502, response_headers = []\<rparr>
   \<and> fst (forward_request (failing_backend (OtherException ''boom''))
          (fresh_balancer ''ROUND_ROBIN'') t1 mixed_case_request ''/x'')
     = Inr \<lparr>response_body = ''Error forwarding request: boom'', status = 502, response_headers = []\<rparr>
   \<and> fst (forward_request undecodable_backend
          (fresh_balancer ''ROUND_ROBIN'') t1 mixed_case_request ''/x'')
     = Inr \<lparr>response_body = ''Error forwarding request: invalid start byte'', status = 502,
            response_headers = []\<rparr>
   \<and> fst (forward_request echo_backend
          (fresh_balancer ''ROUND_ROBIN'') t1 mixed_case_request ''/x'')
     = Inr \<lparr>response_body = ''http://10.0.0.1:8080/x?a=1'', status = 200,
            response_headers = [(''Content-Type'', ''text/plain'')]\<rparr>"
proof -
  let ?lb = "fresh_balancer ''ROUND_ROBIN''"
  let ?url = "''http://10.0.0.1:8080/x''"
  let ?qs = "''a=1''"
  have n: "str_int 8080 = ''8080''"
    by (simp add: str_int_def char_of_eq_iff)
  have g: "get_url (failing_backend e) t1 ''/x'' = Inr ?url" for e
    by (simp add: failing_backend_def t1_def n)
  have d: "decode_utf8 (failing_backend e) (query_string mixed_case_request) = Inr ?qs" for e
    by (simp add: failing_backend_def mixed_case_request_def)
  have s: "session_request (failing_backend e) (fst (get_session ?lb t1))
             (build_outbound ?lb mixed_case_request (if ?qs \<noteq> [] then ?url @ ''?'' @ ?qs else ?url))
           = Inl e" for e
    by (simp add: failing_backend_def)
  note fails = forward_request_never_raises [THEN conjunct2, THEN conjunct1, rule_format,
      OF disjI2, OF disjI2, OF conjI, OF g, OF conjI, OF d s]
  have a1: "fst (forward_request (failing_backend (RequestsTimeout ''read timed out''))
          ?lb t1 mixed_case_request ''/x'')
     = Inr \<lparr>response_body = ''Request timeout'', status = 504, response_headers = []\<rparr>"
    using fails [of "RequestsTimeout ''read timed out''"] by (simp add: failing_backend_def)
  have a2: "fst (forward_request (failing_backend (RequestsConnectTimeout ''connect timed out''))
          ?lb t1 mixed_case_request ''/x'')
     = Inr \<lparr>response_body = ''Request timeout'', status = 504, response_headers = []\<rparr>"
    using fails [of "RequestsConnectTimeout ''connect timed out''"] by (simp add: failing_backend_def)
  have a3: "fst (forward_request (failing_backend (RequestsConnectionError ''connection refused''))
          ?lb t1 mixed_case_request ''/x'')
     = Inr \<lparr>response_body = ''Connection error'', status = 502, response_headers = []\<rparr>"
    using fails [of "RequestsConnectionError ''connection refused''"] by (simp add: failing_backend_def)
  have a4: "fst (forward_request (failing_backend (OtherException ''boom''))
          ?lb t1 mixed_case_request ''/x'')
     = Inr \<lparr>response_body = ''Error forwarding request: boom'', status = 502, response_headers = []\<rparr>"
    using fails [of "OtherException ''boom''"] by (simp add: failing_backend_def)
  have gu: "get_url undecodable_backend t1 ''/x'' = Inr ?url"
    by (simp add: undecodable_backend_def t1_def n)
  have du: "decode_utf8 undecodable_backend (query_string mixed_case_request)
              = Inl (UnicodeError ''invalid start byte'')"
    by (simp add: undecodable_backend_def)
  have a5: "fst (forward_request undecodable_backend ?lb t1 mixed_case_request ''/x'')
     = Inr \<lparr>response_body = ''Error forwarding request: invalid start byte'', status = 502,
            response_headers = []\<rparr>"
    using forward_request_never_raises [THEN conjunct2, THEN conjunct1, rule_format,
      OF disjI2, OF disjI1, OF conjI, OF gu du]
    by (simp add: undecodable_backend_def)
  have ge: "get_url echo_backend t1 ''/x'' = Inr ?url"
    by (simp add: echo_backend_def t1_def n)
  have de: "decode_utf8 echo_backend (query_string mixed_case_request) = Inr ?qs"
    by (simp add: echo_backend_def mixed_case_request_def)
  have se: "session_request echo_backend (fst (get_session ?lb t1))
             (build_outbound ?lb mixed_case_request (if ?qs \<noteq> [] then ?url @ ''?'' @ ?qs else ?url))
           = Inr \<lparr>content = ''http://10.0.0.1:8080/x?a=1'', status_code = 200,
                  backend_headers = [(''Content-Type'', ''text/plain'')]\<rparr>"
    by (simp add: echo_backend_def build_outbound_def)
  have a6: "fst (forward_request echo_backend ?lb t1 mixed_case_request ''/x'')
     = Inr \<lparr>response_body = ''http://10.0.0.1:8080/x?a=1'', status = 200,
            response_headers = [(''Content-Type'', ''text/plain'')]\<rparr>"
    using forward_request_never_raises [THEN conjunct2, THEN conjunct2, rule_format,
      OF conjI, OF ge, OF conjI, OF de se]
    by (simp add: dict_of_def dict_store_def)
  show ?thesis using a1 a2 a3 a4 a5 a6 by (intro conjI)
qed

end
